theory Spec2Isabelle
  imports Complex_Main
begin

section \<open>The process manager of \<^verbatim>\<open>templates/process_manager.py\<close>\<close>

text \<open>
  The class \<^verbatim>\<open>MCPProcessManager\<close> keeps one external process alive across calls and
  forgets it once it has been idle too long. What it knows about the process lives in two
  text files below the skill directory: \<^verbatim>\<open>.mcp.pid\<close> and \<^verbatim>\<open>.mcp.last_active\<close>.
  The methods are embedded as functions on an explicit state that holds the fields of the
  object together with the part of the operating system the methods touch (the two files,
  the process table, the clock). A Python exception is a value: every method returns
  \<open>(exn + 'a) \<times> state\<close>, with \<open>Inl\<close> for a raised exception and the state as it is
  at that moment.
\<close>

subsection \<open>Python values the methods rely on\<close>

datatype exn =
    NameError | ValueError | OverflowError
  | FileNotFoundError | PermissionError | ProcessLookupError
  | TimeoutExpired

text \<open>The subclasses of \<^verbatim>\<open>OSError\<close> among them, for \<^verbatim>\<open>except OSError\<close>.\<close>

fun is_OSError :: "exn \<Rightarrow> bool" where
  "is_OSError FileNotFoundError = True"
| "is_OSError PermissionError = True"
| "is_OSError ProcessLookupError = True"
| "is_OSError _ = False"

definition is_digit :: "char \<Rightarrow> bool" where
  "is_digit c = (48 \<le> (of_char c :: nat) \<and> (of_char c :: nat) \<le> 57)"

definition digit_val :: "char \<Rightarrow> nat" where
  "digit_val c = (of_char c :: nat) - 48"

text \<open>
  A character of a text is a code point below 256. Those for which \<^verbatim>\<open>str.isspace\<close>
  holds, which \<^verbatim>\<open>str.strip\<close>, \<^verbatim>\<open>int\<close> and \<^verbatim>\<open>float\<close> drop at both ends: the ASCII
  white space, the separators 28 to 31, next line (133) and no-break space (160).
\<close>

definition is_space :: "char \<Rightarrow> bool" where
  "is_space c =
     (let n = (of_char c :: nat)
      in (9 \<le> n \<and> n \<le> 13) \<or> (28 \<le> n \<and> n \<le> 32) \<or> n = 133 \<or> n = 160)"

definition strip :: "string \<Rightarrow> string" where
  "strip s = rev (dropWhile is_space (rev (dropWhile is_space s)))"

text \<open>
  Decimal digits, where a single underscore may stand between two digits, as the
  constructors \<^verbatim>\<open>int\<close> and \<^verbatim>\<open>float\<close> accept them.
\<close>

fun grouped :: "string \<Rightarrow> bool" where
  "grouped [] = False"
| "grouped [c] = is_digit c"
| "grouped (c # d # r) = (is_digit c \<and> (if d = CHR ''_'' then grouped r else grouped (d # r)))"

definition digits_nat :: "string \<Rightarrow> nat" where
  "digits_nat s = foldl (\<lambda>n c. 10 * n + digit_val c) 0 (filter is_digit s)"

definition unsigned_int :: "string \<Rightarrow> exn + int" where
  "unsigned_int s = (if grouped s then Inr (int (digits_nat s)) else Inl ValueError)"

text \<open>\<^verbatim>\<open>int(text)\<close> on a string: an optional sign, then decimal digits.\<close>

definition py_int :: "string \<Rightarrow> exn + int" where
  "py_int s =
     (case strip s of
        [] \<Rightarrow> Inl ValueError
      | c # r \<Rightarrow>
          if c = CHR ''-'' then map_sum id uminus (unsigned_int r)
          else if c = CHR ''+'' then unsigned_int r
          else unsigned_int (c # r))"

text \<open>
  \<^verbatim>\<open>float(text)\<close> on a string, for the plain decimal notation that \<^verbatim>\<open>str\<close> of a
  timestamp produces: an optional sign, digits, and an optional fraction. The value is
  kept exact, as a rational; rounding to a binary float, exponent notation and the
  spellings of infinity and not-a-number are outside this model, and such a text counts
  as malformed here.
\<close>

definition unsigned_float :: "string \<Rightarrow> exn + rat" where
  "unsigned_float s =
     (let whole = takeWhile (\<lambda>c. c \<noteq> CHR ''.'') s;
          rest = dropWhile (\<lambda>c. c \<noteq> CHR ''.'') s;
          frac = (case rest of [] \<Rightarrow> [] | _ # f \<Rightarrow> f)
      in if (whole = [] \<and> frac = []) \<or> (whole \<noteq> [] \<and> \<not> grouped whole)
            \<or> (frac \<noteq> [] \<and> \<not> grouped frac)
         then Inl ValueError
         else Inr (of_nat (digits_nat whole)
                   + of_nat (digits_nat frac) / 10 ^ length (filter is_digit frac)))"

definition py_float :: "string \<Rightarrow> exn + rat" where
  "py_float s =
     (case strip s of
        [] \<Rightarrow> Inl ValueError
      | c # r \<Rightarrow>
          if c = CHR ''-'' then map_sum id uminus (unsigned_float r)
          else if c = CHR ''+'' then unsigned_float r
          else unsigned_float (c # r))"

text \<open>\<^verbatim>\<open>str(n)\<close> for a natural number: its decimal digits, most significant first.\<close>

definition digit_char :: "nat \<Rightarrow> char" where
  "digit_char d = ''0123456789'' ! d"

function str_nat :: "nat \<Rightarrow> string" where
  "str_nat n =
     (if n < 10 then [digit_char n]
      else str_nat (n div 10) @ [digit_char (n mod 10)])"
  by pat_completeness auto
termination
  by (relation "measure id") auto

declare str_nat.simps [simp del]

definition str_int :: "int \<Rightarrow> string" where
  "str_int i = (if i < 0 then CHR ''-'' # str_nat (nat (- i)) else str_nat (nat i))"

text \<open>
  The clock counts whole seconds since the epoch, and \<^verbatim>\<open>str(time.time())\<close> of such a
  value is its digits followed by \<^verbatim>\<open>.0\<close>.
\<close>

definition str_float :: "nat \<Rightarrow> string" where
  "str_float t = str_nat t @ ''.0''"

subsection \<open>The state: the object and its surroundings\<close>

text \<open>
  \<^verbatim>\<open>self.pid_file\<close> and \<^verbatim>\<open>self.last_active_file\<close> are the only paths the class
  touches.
\<close>

datatype path = pid_file | last_active_file

text \<open>
  An entry of the process table: whether this user may signal the process, and whether
  the process exits when it receives \<^verbatim>\<open>SIGTERM\<close>. The identifier of a process is
  positive.
\<close>

datatype proc = Proc (permitted: bool) (honours_sigterm: bool)

text \<open>
  A \<^verbatim>\<open>subprocess.Popen\<close> object: the identifier of the child, and whether its
  \<^verbatim>\<open>returncode\<close> has been set (the child was waited for).
\<close>

record popen =
  pid :: int
  exited :: bool

text \<open>
  The fields of the object come first. \<^verbatim>\<open>worker_process\<close>, \<^verbatim>\<open>request_queue\<close> and
  \<^verbatim>\<open>response_queue\<close> are never assigned after the constructor has set them to
  \<^verbatim>\<open>None\<close>, and are left out. \<^verbatim>\<open>timeout\<close> and \<^verbatim>\<open>check_interval\<close> are whatever
  numbers the configuration holds; nothing validates them. The rest is the environment:
  the contents of the two paths, whether the skill directory can be searched, the paths
  that the file system refuses to open for reading or to remove, the process table,
  what answers when a negative number is signalled (\<open>-1\<close> is every process the caller
  may signal, \<open>-g\<close> the process group \<open>g\<close>: nothing, or something that may or may not
  be signalled), what the configured command will be like once spawned, the identifier
  the next child gets, the clock, and two logs that only grow: the signals delivered and
  the children spawned.
\<close>

record state =
  enabled :: bool
  timeout :: int
  check_interval :: int
  process :: "popen option"
  stop_event :: bool
  monitor_thread :: bool
  files :: "path \<rightharpoonup> string"
  searchable :: bool
  unreadable :: "path set"
  unlink_refused :: "path set"
  procs :: "int \<rightharpoonup> proc"
  groups :: "int \<rightharpoonup> bool"
  command_proc :: proc
  next_pid :: int
  clock :: nat
  signals :: "(int \<times> nat) list"
  spawned :: "int list"

text \<open>Sequencing: the second step runs only when the first has not raised.\<close>

definition and_then ::
  "(exn + 'a) \<times> state \<Rightarrow> ('a \<Rightarrow> state \<Rightarrow> (exn + 'b) \<times> state) \<Rightarrow> (exn + 'b) \<times> state" where
  "and_then r f = (case r of (Inl e, s) \<Rightarrow> (Inl e, s) | (Inr a, s) \<Rightarrow> f a s)"

text \<open>\<^verbatim>\<open>try: ... except: pass\<close> around a block.\<close>

definition except_pass :: "(exn + unit) \<times> state \<Rightarrow> (exn + unit) \<times> state" where
  "except_pass r = (case r of (Inl e, s) \<Rightarrow> (Inr (), s) | (Inr u, s) \<Rightarrow> (Inr u, s))"

subsection \<open>What the methods call\<close>

text \<open>
  \<^verbatim>\<open>Path.exists\<close> asks the file system for the status of the path. A missing file
  answers \<^verbatim>\<open>False\<close>. When the skill directory cannot be searched the request fails
  for lack of permission, and \<^verbatim>\<open>Path.exists\<close> lets that error through.
\<close>

definition exists_path :: "path \<Rightarrow> state \<Rightarrow> exn + bool" where
  "exists_path p s =
     (if \<not> searchable s then Inl PermissionError else Inr (files s p \<noteq> None))"

text \<open>\<^verbatim>\<open>with open(p, 'r') as f: f.read()\<close>\<close>

definition read_text :: "path \<Rightarrow> state \<Rightarrow> exn + string" where
  "read_text p s =
     (if \<not> searchable s then Inl PermissionError
      else case files s p of
        None \<Rightarrow> Inl FileNotFoundError
      | Some text \<Rightarrow> if p \<in> unreadable s then Inl PermissionError else Inr text)"

text \<open>
  \<^verbatim>\<open>with open(p, 'w') as f: f.write(text)\<close>. No handler surrounds a write in the source;
  the write is taken to succeed.
\<close>

definition write_text :: "path \<Rightarrow> string \<Rightarrow> state \<Rightarrow> (exn + unit) \<times> state" where
  "write_text p text s = (Inr (), s\<lparr>files := (files s)(p \<mapsto> text)\<rparr>)"

text \<open>
  The paths whose removal the file system refuses: the ones it refuses one by one, and
  every path when the directory cannot be searched.
\<close>

definition undeletable :: "state \<Rightarrow> path set" where
  "undeletable s = (if searchable s then unlink_refused s else UNIV)"

text \<open>\<^verbatim>\<open>Path.unlink\<close>\<close>

definition unlink :: "path \<Rightarrow> state \<Rightarrow> (exn + unit) \<times> state" where
  "unlink p s =
     (if files s p = None then (Inl FileNotFoundError, s)
      else if p \<in> undeletable s then (Inl PermissionError, s)
      else (Inr (), s\<lparr>files := (files s)(p := None)\<rparr>))"

definition SIGTERM :: nat where
  "SIGTERM = 15"

text \<open>
  \<^verbatim>\<open>os.kill(target, sig)\<close>. The target must fit the 32-bit \<^verbatim>\<open>pid_t\<close>. Target 0 is
  the process group of the caller, which is never empty, so signalling it succeeds. A
  negative target is answered by the environment. A positive target is a process of the
  table. Signal 0 only probes. A delivered signal is logged, and a process that honours
  \<^verbatim>\<open>SIGTERM\<close> leaves the table when it gets one (its exit and its reaping are not told
  apart).
\<close>

definition os_kill :: "int \<Rightarrow> nat \<Rightarrow> state \<Rightarrow> (exn + unit) \<times> state" where
  "os_kill target sig s =
     (if target < - (2 ^ 31) \<or> 2 ^ 31 \<le> target then (Inl OverflowError, s)
      else if target = 0 then
        (Inr (), if sig = 0 then s else s\<lparr>signals := signals s @ [(target, sig)]\<rparr>)
      else if target < 0 then
        (case groups s target of
           None \<Rightarrow> (Inl ProcessLookupError, s)
         | Some allowed \<Rightarrow>
             if \<not> allowed then (Inl PermissionError, s)
             else (Inr (), if sig = 0 then s else s\<lparr>signals := signals s @ [(target, sig)]\<rparr>))
      else case procs s target of
        None \<Rightarrow> (Inl ProcessLookupError, s)
      | Some q \<Rightarrow>
          if \<not> permitted q then (Inl PermissionError, s)
          else if sig = 0 then (Inr (), s)
          else (Inr (), s\<lparr>signals := signals s @ [(target, sig)],
                           procs := (if sig = SIGTERM \<and> honours_sigterm q
                                     then (procs s)(target := None) else procs s)\<rparr>))"

text \<open>
  \<^verbatim>\<open>subprocess.Popen([command] + args, ...)\<close>, taken to succeed: the child enters the
  process table under the next identifier.
\<close>

definition popen_spawn :: "state \<Rightarrow> (exn + popen) \<times> state" where
  "popen_spawn s =
     (Inr \<lparr>pid = next_pid s, exited = False\<rparr>,
      s\<lparr>procs := (procs s)(next_pid s \<mapsto> command_proc s),
        spawned := spawned s @ [next_pid s],
        next_pid := next_pid s + 1\<rparr>)"

text \<open>
  \<^verbatim>\<open>Popen.terminate\<close>: nothing when the child has been waited for; otherwise
  \<^verbatim>\<open>SIGTERM\<close>, where a child that is gone is not an error.
\<close>

definition popen_terminate :: "popen \<Rightarrow> state \<Rightarrow> (exn + unit) \<times> state" where
  "popen_terminate h s =
     (if exited h then (Inr (), s)
      else case os_kill (pid h) SIGTERM s of
             (Inl e, s') \<Rightarrow> if e = ProcessLookupError then (Inr (), s') else (Inl e, s')
           | (Inr u, s') \<Rightarrow> (Inr u, s'))"

text \<open>
  \<^verbatim>\<open>Popen.wait(timeout=5)\<close> on the object held in \<^verbatim>\<open>self.process\<close>: returns once the
  child is gone, and records that in the object; raises when the child is still there
  after the five seconds.
\<close>

definition popen_wait :: "popen \<Rightarrow> state \<Rightarrow> (exn + unit) \<times> state" where
  "popen_wait h s =
     (if exited h then (Inr (), s)
      else case procs s (pid h) of
             None \<Rightarrow> (Inr (), s\<lparr>process := Some (h\<lparr>exited := True\<rparr>)\<rparr>)
           | Some q \<Rightarrow> (Inl TimeoutExpired, s))"

text \<open>
  The names bound at the top level of the module, by its imports and its definitions.
  A name that is neither local, nor here, nor a builtin raises \<^verbatim>\<open>NameError\<close> when it
  is evaluated. The module never imports \<^verbatim>\<open>sys\<close>.
\<close>

definition module_globals :: "string list" where
  "module_globals =
     [''json'', ''time'', ''signal'', ''threading'', ''Path'', ''Optional'', ''Dict'', ''Any'',
      ''Process'', ''Queue'', ''subprocess'', ''MCPProcessManager'', ''_manager'',
      ''init_manager'', ''get_manager'', ''shutdown_manager'']"

definition global_name :: "string \<Rightarrow> state \<Rightarrow> (exn + unit) \<times> state" where
  "global_name x s = (if x \<in> set module_globals then (Inr (), s) else (Inl NameError, s))"

text \<open>
  \<^verbatim>\<open>print(f"...", file=sys.stderr)\<close>: the arguments are evaluated first, among them
  the name \<^verbatim>\<open>sys\<close>; the printing itself changes nothing that is modelled.
\<close>

definition print_stderr :: "state \<Rightarrow> (exn + unit) \<times> state" where
  "print_stderr s = and_then (global_name ''sys'' s) (\<lambda>_ s'. (Inr (), s'))"

subsection \<open>The methods of \<^verbatim>\<open>MCPProcessManager\<close>\<close>

text \<open>\<^verbatim>\<open>update_heartbeat\<close>\<close>

definition update_heartbeat :: "state \<Rightarrow> (exn + unit) \<times> state" where
  "update_heartbeat s =
     (if \<not> enabled s then (Inr (), s)
      else write_text last_active_file (str_float (clock s)) s)"

text \<open>
  \<^verbatim>\<open>is_process_alive\<close>. The block under the outer \<^verbatim>\<open>try\<close> comes first: it reads and
  parses the identifier and probes the process, where the inner handler turns an
  \<^verbatim>\<open>OSError\<close> of the probe into \<^verbatim>\<open>False\<close>. The outer handler catches everything.
  The call of \<^verbatim>\<open>exists\<close> stands before the \<^verbatim>\<open>try\<close>.
\<close>

definition is_process_alive_try :: "state \<Rightarrow> (exn + bool) \<times> state" where
  "is_process_alive_try s =
     (case read_text pid_file s of
        Inl e \<Rightarrow> (Inl e, s)
      | Inr text \<Rightarrow>
          (case py_int (strip text) of
             Inl e \<Rightarrow> (Inl e, s)
           | Inr n \<Rightarrow>
               (case os_kill n 0 s of
                  (Inr u, s') \<Rightarrow> (Inr True, s')
                | (Inl e, s') \<Rightarrow> if is_OSError e then (Inr False, s') else (Inl e, s'))))"

definition is_process_alive :: "state \<Rightarrow> (exn + bool) \<times> state" where
  "is_process_alive s =
     (case exists_path pid_file s of
        Inl e \<Rightarrow> (Inl e, s)
      | Inr present \<Rightarrow>
          if \<not> present then (Inr False, s)
          else case is_process_alive_try s of
                 (Inl e, s') \<Rightarrow> (Inr False, s')
               | (Inr b, s') \<Rightarrow> (Inr b, s'))"

text \<open>\<^verbatim>\<open>_cleanup_files\<close>: the body of its loop, and the loop over the two paths.\<close>

definition cleanup_file :: "path \<Rightarrow> state \<Rightarrow> (exn + unit) \<times> state" where
  "cleanup_file p s =
     (case exists_path p s of
        Inl e \<Rightarrow> (Inl e, s)
      | Inr present \<Rightarrow> if present then except_pass (unlink p s) else (Inr (), s))"

fun cleanup_loop :: "path list \<Rightarrow> state \<Rightarrow> (exn + unit) \<times> state" where
  "cleanup_loop [] s = (Inr (), s)"
| "cleanup_loop (p # ps) s = and_then (cleanup_file p s) (\<lambda>_. cleanup_loop ps)"

definition cleanup_files :: "state \<Rightarrow> (exn + unit) \<times> state" where
  "cleanup_files s = cleanup_loop [pid_file, last_active_file] s"

text \<open>\<^verbatim>\<open>_terminate_process\<close>, the block under its \<^verbatim>\<open>try\<close> first.\<close>

definition terminate_process_try :: "state \<Rightarrow> (exn + unit) \<times> state" where
  "terminate_process_try s =
     (case read_text pid_file s of
        Inl e \<Rightarrow> (Inl e, s)
      | Inr text \<Rightarrow>
          (case py_int (strip text) of
             Inl e \<Rightarrow> (Inl e, s)
           | Inr n \<Rightarrow> os_kill n SIGTERM s))"

definition terminate_process :: "state \<Rightarrow> (exn + unit) \<times> state" where
  "terminate_process s =
     and_then (case exists_path pid_file s of
                 Inl e \<Rightarrow> (Inl e, s)
               | Inr present \<Rightarrow>
                   if present then except_pass (terminate_process_try s) else (Inr (), s))
       (\<lambda>_. cleanup_files)"

text \<open>
  \<^verbatim>\<open>_check_timeout\<close>, the block under its \<^verbatim>\<open>try\<close> first. The idle time is the clock
  minus the stored time; when it exceeds the timeout the method prints to
  \<^verbatim>\<open>sys.stderr\<close> and then calls \<^verbatim>\<open>_terminate_process\<close>.
\<close>

definition check_timeout_try :: "state \<Rightarrow> (exn + unit) \<times> state" where
  "check_timeout_try s =
     (case read_text last_active_file s of
        Inl e \<Rightarrow> (Inl e, s)
      | Inr text \<Rightarrow>
          (case py_float (strip text) of
             Inl e \<Rightarrow> (Inl e, s)
           | Inr last_active \<Rightarrow>
               (let idle_time = of_nat (clock s) - last_active
                in if idle_time > of_int (timeout s)
                   then and_then (print_stderr s) (\<lambda>_. terminate_process)
                   else (Inr (), s))))"

definition check_timeout :: "state \<Rightarrow> (exn + unit) \<times> state" where
  "check_timeout s =
     (case exists_path last_active_file s of
        Inl e \<Rightarrow> (Inl e, s)
      | Inr present \<Rightarrow>
          if \<not> present then (Inr (), s) else except_pass (check_timeout_try s))"

text \<open>
  \<^verbatim>\<open>_start_worker\<close>: nothing when a process is alive; otherwise spawn, keep the handle,
  write the identifier, write the heartbeat, and print to \<^verbatim>\<open>sys.stderr\<close>.
\<close>

definition start_worker :: "state \<Rightarrow> (exn + unit) \<times> state" where
  "start_worker s =
     and_then (is_process_alive s) (\<lambda>alive s0.
       if alive then (Inr (), s0)
       else and_then (popen_spawn s0) (\<lambda>h s1.
         and_then (write_text pid_file (str_int (pid h)) (s1\<lparr>process := Some h\<rparr>)) (\<lambda>_ s2.
           and_then (update_heartbeat s2) (\<lambda>_. print_stderr))))"

text \<open>\<^verbatim>\<open>get_process\<close>\<close>

definition get_process :: "state \<Rightarrow> (exn + popen option) \<times> state" where
  "get_process s =
     (if \<not> enabled s then (Inr None, s)
      else and_then (is_process_alive s) (\<lambda>alive s0.
        and_then (if \<not> alive then start_worker s0 else update_heartbeat s0) (\<lambda>_ s1.
          (Inr (process s1), s1))))"

text \<open>
  \<^verbatim>\<open>_start_monitor\<close> creates the thread and starts it. What the thread then does is
  \<open>monitor_loop\<close> below; here only the field is set.
\<close>

definition start_monitor :: "state \<Rightarrow> (exn + unit) \<times> state" where
  "start_monitor s = (Inr (), s\<lparr>monitor_thread := True\<rparr>)"

text \<open>\<^verbatim>\<open>start\<close>\<close>

definition start :: "state \<Rightarrow> (exn + unit) \<times> state" where
  "start s =
     (if \<not> enabled s then (Inr (), s)
      else and_then (start_monitor s) (\<lambda>_. start_worker))"

text \<open>
  \<^verbatim>\<open>stop\<close>: set the event, join the monitor thread for at most five seconds (which
  changes nothing here), terminate and wait for the process of \<^verbatim>\<open>self.process\<close>, and
  clean up the files. Nothing is caught on the way.
\<close>

definition stop :: "state \<Rightarrow> (exn + unit) \<times> state" where
  "stop s =
     (let s1 = s\<lparr>stop_event := True\<rparr>
      in and_then (case process s1 of
                     None \<Rightarrow> (Inr (), s1)
                   | Some h \<Rightarrow> and_then (popen_terminate h s1) (\<lambda>_. popen_wait h))
           (\<lambda>_. cleanup_files))"

subsection \<open>The monitor thread\<close>

text \<open>The body of the loop of \<^verbatim>\<open>_monitor_loop\<close>, up to the sleep.\<close>

definition monitor_tick :: "state \<Rightarrow> (exn + unit) \<times> state" where
  "monitor_tick s =
     and_then (is_process_alive s) (\<lambda>alive s0.
       if alive then check_timeout s0 else cleanup_files s0)"

text \<open>
  \<^verbatim>\<open>time.sleep(d)\<close> in the monitor thread. A negative length raises \<^verbatim>\<open>ValueError\<close>.
  Otherwise the thread resumes \<open>d\<close> seconds later. Another thread may set the stop
  event meanwhile, at the time \<open>stop_at\<close>; the sleeper finds the event set when it
  resumes.
\<close>

definition time_sleep :: "int \<Rightarrow> nat option \<Rightarrow> state \<Rightarrow> (exn + unit) \<times> state" where
  "time_sleep d stop_at s =
     (if d < 0 then (Inl ValueError, s)
      else (Inr (),
            s\<lparr>clock := clock s + nat d,
              stop_event := (stop_event s \<or>
                (case stop_at of None \<Rightarrow> False | Some t \<Rightarrow> t \<le> clock s + nat d))\<rparr>))"

text \<open>
  \<^verbatim>\<open>_monitor_loop\<close>, with fuel for the number of times the loop condition is
  evaluated: \<open>None\<close> says that the loop is still running when the fuel is used up,
  \<open>Some (Inr ())\<close> that it has left through its condition, \<open>Some (Inl e)\<close> that an
  exception has ended the thread: the loop has no handler of its own.
\<close>

fun monitor_loop :: "nat \<Rightarrow> nat option \<Rightarrow> state \<Rightarrow> (exn + unit) option \<times> state" where
  "monitor_loop 0 stop_at s = (None, s)"
| "monitor_loop (Suc fuel) stop_at s =
     (if stop_event s then (Some (Inr ()), s)
      else case monitor_tick s of
             (Inl e, s') \<Rightarrow> (Some (Inl e), s')
           | (Inr u, s') \<Rightarrow>
               (case time_sleep (check_interval s') stop_at s' of
                  (Inl e, s'') \<Rightarrow> (Some (Inl e), s'')
                | (Inr v, s'') \<Rightarrow> monitor_loop fuel stop_at s''))"

subsection \<open>Callers and sample states\<close>

text \<open>
  A caller of a disabled manager may call \<^verbatim>\<open>start\<close>, \<^verbatim>\<open>get_process\<close> and
  \<^verbatim>\<open>update_heartbeat\<close> in any order; a sequence of such calls runs until one raises.
\<close>

datatype call = Start | Get_process | Update_heartbeat

fun run_call :: "call \<Rightarrow> state \<Rightarrow> (exn + unit) \<times> state" where
  "run_call Start s = start s"
| "run_call Get_process s = and_then (get_process s) (\<lambda>_ s'. (Inr (), s'))"
| "run_call Update_heartbeat s = update_heartbeat s"

fun run_calls :: "call list \<Rightarrow> state \<Rightarrow> (exn + unit) \<times> state" where
  "run_calls [] s = (Inr (), s)"
| "run_calls (c # cs) s = and_then (run_call c s) (\<lambda>_. run_calls cs)"

text \<open>
  A manager as the constructor leaves it with the default \<^verbatim>\<open>keep_alive\<close> settings and
  a command that can be run, in an empty skill directory, at second 5000 of the clock;
  the command would run as a process that may be signalled and honours \<^verbatim>\<open>SIGTERM\<close>.
\<close>

definition fresh :: state where
  "fresh =
     \<lparr>enabled = True, timeout = 3600, check_interval = 60, process = None,
      stop_event = False, monitor_thread = False,
      files = Map.empty, searchable = True, unreadable = {}, unlink_refused = {},
      procs = Map.empty, groups = Map.empty, command_proc = Proc True True,
      next_pid = 4242, clock = 5000, signals = [], spawned = []\<rparr>"

text \<open>The same with \<^verbatim>\<open>keep_alive.enabled\<close> false.\<close>

definition disabled :: state where
  "disabled = fresh\<lparr>enabled := False\<rparr>"

text \<open>
  The idle-timeout scenario: timeout 2 and interval 1, a live worker 4242 whose handle
  the manager holds, and a last-active time three seconds in the past.
\<close>

definition idle_worker :: state where
  "idle_worker =
     fresh\<lparr>timeout := 2, check_interval := 1,
           process := Some \<lparr>pid = 4242, exited = False\<rparr>,
           files := [pid_file \<mapsto> ''4242'', last_active_file \<mapsto> ''4997.0''],
           procs := [4242 \<mapsto> Proc True True]\<rparr>"

text \<open>
  The crash-reconciliation scenario: an identity file that names process 999, which does
  not exist, and an old last-active file; nothing was spawned.
\<close>

definition stale :: state where
  "stale = fresh\<lparr>files := [pid_file \<mapsto> ''999'', last_active_file \<mapsto> ''100.0'']\<rparr>"

text \<open>The same where the file system refuses to remove the identity file.\<close>

definition locked :: state where
  "locked = stale\<lparr>unlink_refused := {pid_file}\<rparr>"

text \<open>An identity file whose content is not a number.\<close>

definition garbled :: state where
  "garbled = fresh\<lparr>files := [pid_file \<mapsto> ''not a pid'']\<rparr>"

text \<open>An identity file that names process 1, which exists and may not be signalled.\<close>

definition foreign :: state where
  "foreign = fresh\<lparr>files := [pid_file \<mapsto> ''1''], procs := [1 \<mapsto> Proc False False]\<rparr>"

text \<open>
  A manager that holds the handle of worker 4242 and both files, while the worker has
  died, was noticed through the handle (its return code is set) and has left the
  process table.
\<close>

definition lost_worker :: state where
  "lost_worker =
     fresh\<lparr>process := Some \<lparr>pid = 4242, exited = True\<rparr>,
           files := [pid_file \<mapsto> ''4242'', last_active_file \<mapsto> ''4990.0'']\<rparr>"

text \<open>The idle-timeout scenario with a worker that does not exit on \<^verbatim>\<open>SIGTERM\<close>.\<close>

definition stubborn :: state where
  "stubborn = idle_worker\<lparr>procs := [4242 \<mapsto> Proc True False]\<rparr>"

text \<open>
  The idle-timeout scenario after the skill directory has lost its search permission.
\<close>

definition sealed :: state where
  "sealed = idle_worker\<lparr>searchable := False\<rparr>"

text \<open>An identity file that holds the number 0, while no process has that identifier.\<close>

definition pid_zero :: state where
  "pid_zero = fresh\<lparr>files := [pid_file \<mapsto> ''0'']\<rparr>"

text \<open>A configuration whose \<^verbatim>\<open>keep_alive.check_interval\<close> is \<open>-1\<close>.\<close>

definition negative_interval :: state where
  "negative_interval = fresh\<lparr>check_interval := -1\<rparr>"

section \<open>Properties\<close>

subsection \<open>Auxiliary facts\<close>

lemma print_stderr_raises: "print_stderr s = (Inl NameError, s)"
  by (simp add: print_stderr_def and_then_def global_name_def module_globals_def)

text \<open>What is refused does not depend on the contents of the files or on the processes.\<close>

lemma undeletable_files_upd [simp]: "undeletable (s\<lparr>files := f\<rparr>) = undeletable s"
  and undeletable_stop_event_upd [simp]: "undeletable (s\<lparr>stop_event := b\<rparr>) = undeletable s"
  and undeletable_process_upd [simp]: "undeletable (s\<lparr>process := h\<rparr>) = undeletable s"
  and undeletable_signals_upd [simp]: "undeletable (s\<lparr>signals := l\<rparr>) = undeletable s"
  and undeletable_procs_upd [simp]: "undeletable (s\<lparr>procs := t\<rparr>) = undeletable s"
  by (simp_all add: undeletable_def)

lemma undeletable_unsearchable: "\<not> searchable s \<Longrightarrow> undeletable s = UNIV"
  by (simp add: undeletable_def)

lemma exists_path_searchable: "searchable s \<Longrightarrow> exists_path p s = Inr (files s p \<noteq> None)"
  and exists_path_unsearchable: "\<not> searchable s \<Longrightarrow> exists_path p s = Inl PermissionError"
  by (simp_all add: exists_path_def)

lemma os_kill_probe_state: "snd (os_kill n 0 s) = s"
  by (simp add: os_kill_def split: option.splits)

lemma os_kill_probe: "\<exists>r. os_kill n 0 s = (r, s)"
  using os_kill_probe_state [of n s] by (cases "os_kill n 0 s") simp

lemma is_process_alive_try_state: "snd (is_process_alive_try s) = s"
proof (cases "read_text pid_file s")
  case (Inl e)
  then show ?thesis by (simp add: is_process_alive_try_def)
next
  case read: (Inr content)
  show ?thesis
  proof (cases "py_int (strip content)")
    case (Inl e)
    with read show ?thesis by (simp add: is_process_alive_try_def)
  next
    case (Inr n)
    obtain r where "os_kill n 0 s = (r, s)"
      using os_kill_probe by blast
    with read Inr show ?thesis
      by (cases r) (simp_all add: is_process_alive_try_def)
  qed
qed

lemma is_process_alive_returns:
  assumes "searchable s"
  shows "\<exists>b. is_process_alive s = (Inr b, s)"
proof (cases "is_process_alive_try s")
  case (Pair r s')
  with is_process_alive_try_state [of s] have "s' = s" by simp
  with Pair assms show ?thesis
    by (cases r) (auto simp: is_process_alive_def exists_path_searchable)
qed

lemma is_process_alive_unsearchable:
  "\<not> searchable s \<Longrightarrow> is_process_alive s = (Inl PermissionError, s)"
  by (simp add: is_process_alive_def exists_path_unsearchable)

lemma is_process_alive_searchable:
  "is_process_alive s = (Inr b, s') \<Longrightarrow> searchable s"
  using is_process_alive_unsearchable [of s] by (cases "searchable s") simp_all

lemma unlink_some:
  "files s p = Some c \<Longrightarrow> unlink p s =
     (if p \<in> undeletable s then (Inl PermissionError, s)
      else (Inr (), s\<lparr>files := (files s)(p := None)\<rparr>))"
  unfolding unlink_def by simp

lemma cleanup_file_eq:
  assumes "searchable s"
  shows "cleanup_file p s =
     (Inr (), if p \<in> undeletable s then s else s\<lparr>files := (files s)(p := None)\<rparr>)"
proof (cases "files s p")
  case None
  then have "(files s)(p := None) = files s" by (simp add: fun_upd_idem)
  with None assms show ?thesis by (simp add: cleanup_file_def exists_path_searchable)
next
  case (Some c)
  with assms have "exists_path p s = Inr True" by (simp add: exists_path_searchable)
  then show ?thesis
    unfolding cleanup_file_def using unlink_some [OF Some]
    by (simp add: except_pass_def)
qed

text \<open>The equations that evaluate the conversions between text and numbers.\<close>

lemmas py_defs = py_int_def py_float_def strip_def is_space_def unsigned_int_def unsigned_float_def
  is_digit_def digits_nat_def digit_val_def str_float_def str_int_def str_nat.simps digit_char_def

text \<open>
  \<^verbatim>\<open>_cleanup_files\<close> in one equation: it raises exactly when the directory cannot be
  searched, and leaves each file that cannot be removed.
\<close>

lemma cleanup_files_eq:
  "cleanup_files s =
     (if searchable s then Inr () else Inl PermissionError,
      s\<lparr>files := (\<lambda>p. if p \<in> undeletable s then files s p else None)\<rparr>)"
proof (cases "searchable s")
  case True
  let ?f1 = "if pid_file \<in> undeletable s then files s else (files s)(pid_file := None)"
  let ?f2 = "if last_active_file \<in> undeletable s then ?f1 else ?f1(last_active_file := None)"
  have step1: "cleanup_file pid_file s = (Inr (), s\<lparr>files := ?f1\<rparr>)"
    using True by (simp add: cleanup_file_eq)
  have "searchable (s\<lparr>files := ?f1\<rparr>)" using True by simp
  then have step2: "cleanup_file last_active_file (s\<lparr>files := ?f1\<rparr>) = (Inr (), s\<lparr>files := ?f2\<rparr>)"
    by (simp add: cleanup_file_eq)
  have "?f2 = (\<lambda>p. if p \<in> undeletable s then files s p else None)"
    by (rule ext) (case_tac p; simp)
  with True show ?thesis
    by (simp add: cleanup_files_def and_then_def step1 step2)
next
  case False
  then have "cleanup_files s = (Inl PermissionError, s)"
    by (simp add: cleanup_files_def cleanup_file_def exists_path_unsearchable and_then_def)
  with False show ?thesis
    by (simp add: undeletable_unsearchable)
qed

text \<open>
  \<^verbatim>\<open>_check_timeout\<close> never changes anything: whatever it reads, the unbound \<^verbatim>\<open>sys\<close>
  stops it before \<^verbatim>\<open>_terminate_process\<close>.
\<close>

lemma check_timeout_noop:
  "check_timeout s = (if searchable s then Inr () else Inl PermissionError, s)"
proof (cases "searchable s")
  case False
  then show ?thesis by (simp add: check_timeout_def exists_path_unsearchable)
next
  case True
  have "snd (check_timeout_try s) = s"
    by (simp add: check_timeout_try_def and_then_def print_stderr_raises Let_def split: sum.splits)
  then have "except_pass (check_timeout_try s) = (Inr (), s)"
    by (cases "check_timeout_try s") (auto simp: except_pass_def split: sum.splits)
  with True show ?thesis by (simp add: check_timeout_def exists_path_searchable)
qed

lemma monitor_tick_eq:
  assumes "searchable s"
  shows "monitor_tick s =
     (if fst (is_process_alive s) = Inr True then (Inr (), s) else cleanup_files s)"
proof -
  obtain b where "is_process_alive s = (Inr b, s)"
    using is_process_alive_returns [OF assms] by blast
  with assms show ?thesis
    by (simp add: monitor_tick_def and_then_def check_timeout_noop)
qed

lemma monitor_tick_unsearchable:
  "\<not> searchable s \<Longrightarrow> monitor_tick s = (Inl PermissionError, s)"
  by (simp add: monitor_tick_def and_then_def is_process_alive_unsearchable)

lemma start_worker_spawns:
  assumes "is_process_alive s = (Inr False, s)"
  shows "start_worker s =
    (Inl NameError,
     s\<lparr>procs := (procs s)(next_pid s \<mapsto> command_proc s),
       spawned := spawned s @ [next_pid s],
       next_pid := next_pid s + 1,
       process := Some \<lparr>pid = next_pid s, exited = False\<rparr>,
       files := (if enabled s
                 then (files s)(pid_file \<mapsto> str_int (next_pid s),
                                last_active_file \<mapsto> str_float (clock s))
                 else (files s)(pid_file \<mapsto> str_int (next_pid s)))\<rparr>)"
  using assms
  by (simp add: start_worker_def and_then_def popen_spawn_def write_text_def
      update_heartbeat_def print_stderr_raises)

lemma get_process_not_alive:
  assumes "enabled s" and "is_process_alive s = (Inr False, s)"
  shows "get_process s =
    (Inl NameError,
     s\<lparr>procs := (procs s)(next_pid s \<mapsto> command_proc s),
       spawned := spawned s @ [next_pid s],
       next_pid := next_pid s + 1,
       process := Some \<lparr>pid = next_pid s, exited = False\<rparr>,
       files := (files s)(pid_file \<mapsto> str_int (next_pid s),
                          last_active_file \<mapsto> str_float (clock s))\<rparr>)"
  using assms by (simp add: get_process_def and_then_def start_worker_spawns)

lemma get_process_alive:
  assumes "enabled s" and "is_process_alive s = (Inr True, s)"
  shows "get_process s =
    (Inr (process s), s\<lparr>files := (files s)(last_active_file \<mapsto> str_float (clock s))\<rparr>)"
  using assms by (simp add: get_process_def and_then_def update_heartbeat_def write_text_def)

subsection \<open>Idle timeout\<close>

text \<open>
  Claim C1. An enabled manager with a live worker whose last-active time lies more than
  the timeout in the past should, on a monitor tick, send \<^verbatim>\<open>SIGTERM\<close> to the process
  named in the identity file and leave both files absent. The code does not: in
  \<^verbatim>\<open>_check_timeout\<close> the \<^verbatim>\<open>print\<close> before \<^verbatim>\<open>_terminate_process\<close> evaluates the
  unbound name \<^verbatim>\<open>sys\<close>, the \<^verbatim>\<open>NameError\<close> is swallowed by the handler around it,
  and the tick changes nothing. In the idle-timeout scenario the worker is alive, the
  stored time reads as 4997, the idle time of three seconds exceeds the timeout of two,
  and after the tick the state is what it was: no signal, both files still there.
\<close>

theorem idle_timeout_tick_leaves_worker:
  "fst (is_process_alive idle_worker) = Inr True
   \<and> read_text last_active_file idle_worker = Inr ''4997.0''
   \<and> py_float (strip ''4997.0'') = Inr 4997
   \<and> of_nat (clock idle_worker) - (4997 :: rat) > of_int (timeout idle_worker)
   \<and> monitor_tick idle_worker = (Inr (), idle_worker)
   \<and> signals idle_worker = []
   \<and> files idle_worker pid_file = Some ''4242''
   \<and> files idle_worker last_active_file = Some ''4997.0''"
proof -
  have alive: "is_process_alive idle_worker = (Inr True, idle_worker)"
    by (simp add: is_process_alive_def is_process_alive_try_def exists_path_def read_text_def
        os_kill_def idle_worker_def fresh_def py_defs)
  have "read_text last_active_file idle_worker = Inr ''4997.0''"
    by (simp add: read_text_def idle_worker_def fresh_def)
  moreover have "py_float (strip ''4997.0'') = Inr 4997"
    by (simp add: py_defs)
  moreover have "of_nat (clock idle_worker) - (4997 :: rat) > of_int (timeout idle_worker)"
    by (simp add: idle_worker_def fresh_def)
  moreover have "searchable idle_worker"
    by (simp add: idle_worker_def fresh_def)
  then have "monitor_tick idle_worker = (Inr (), idle_worker)"
    by (simp add: monitor_tick_def and_then_def alive check_timeout_noop)
  moreover have "signals idle_worker = []"
    and "files idle_worker pid_file = Some ''4242''"
    and "files idle_worker last_active_file = Some ''4997.0''"
    by (simp_all add: idle_worker_def fresh_def)
  ultimately show ?thesis using alive by simp
qed

subsection \<open>Getting the worker\<close>

text \<open>
  Claim C2. \<^verbatim>\<open>get_process\<close> returns \<^verbatim>\<open>None\<close> when disabled, spawns and returns the
  new handle when no process is alive, and otherwise only refreshes the last-active file
  and returns the handle it has. The first and the last part hold (\<open>get_process_alive\<close>
  above, and the theorem on the disabled manager below). The middle part fails: after
  the spawn and after both files are written, \<^verbatim>\<open>_start_worker\<close> prints to the unbound
  \<^verbatim>\<open>sys.stderr\<close>, and the \<^verbatim>\<open>NameError\<close> leaves \<^verbatim>\<open>get_process\<close> instead of a handle
  (\<open>get_process_not_alive\<close>). Here at the fresh manager.
\<close>

theorem get_process_raises_after_spawn:
  "enabled fresh
   \<and> is_process_alive fresh = (Inr False, fresh)
   \<and> fst (get_process fresh) = Inl NameError
   \<and> spawned (snd (get_process fresh)) = [4242]
   \<and> process (snd (get_process fresh)) = Some \<lparr>pid = 4242, exited = False\<rparr>
   \<and> files (snd (get_process fresh)) pid_file = Some ''4242''
   \<and> files (snd (get_process fresh)) last_active_file = Some ''5000.0''"
proof -
  have en: "enabled fresh" by (simp add: fresh_def)
  have dead: "is_process_alive fresh = (Inr False, fresh)"
    by (simp add: is_process_alive_def exists_path_def fresh_def)
  have "str_int (next_pid fresh) = ''4242''" and "str_float (clock fresh) = ''5000.0''"
    and "spawned fresh = []" and "next_pid fresh = 4242"
    by (simp_all add: fresh_def py_defs)
  then show ?thesis
    using en dead by (simp add: get_process_not_alive [OF en dead])
qed

subsection \<open>The disabled manager\<close>

text \<open>
  Claim C3. With \<^verbatim>\<open>enabled\<close> false, \<^verbatim>\<open>start\<close>, \<^verbatim>\<open>get_process\<close> and
  \<^verbatim>\<open>update_heartbeat\<close> return without raising and leave the whole state as it is, singly
  and in any sequence: nothing is spawned and no file is created.
\<close>

theorem disabled_manager_inert:
  assumes "\<not> enabled s"
  shows "start s = (Inr (), s) \<and> get_process s = (Inr None, s)
         \<and> update_heartbeat s = (Inr (), s) \<and> run_calls cs s = (Inr (), s)"
proof -
  have one: "run_call c s = (Inr (), s)" for c
    using assms
    by (cases c) (simp_all add: start_def get_process_def update_heartbeat_def and_then_def)
  have "run_calls cs s = (Inr (), s)"
    by (induction cs) (simp_all add: one and_then_def)
  with assms show ?thesis
    by (simp add: start_def get_process_def update_heartbeat_def)
qed

text \<open>At the disabled sample manager, whose directory is empty and stays so.\<close>

theorem disabled_manager_inert_witness:
  "\<not> enabled disabled
   \<and> start disabled = (Inr (), disabled)
   \<and> get_process disabled = (Inr None, disabled)
   \<and> update_heartbeat disabled = (Inr (), disabled)
   \<and> run_calls [Start, Get_process, Update_heartbeat, Get_process] disabled = (Inr (), disabled)
   \<and> files disabled pid_file = None \<and> files disabled last_active_file = None
   \<and> spawned disabled = []"
proof -
  have off: "\<not> enabled disabled" by (simp add: disabled_def fresh_def)
  have "files disabled pid_file = None" and "files disabled last_active_file = None"
    and "spawned disabled = []"
    by (simp_all add: disabled_def fresh_def)
  with off show ?thesis
    using disabled_manager_inert [OF off, of "[Start, Get_process, Update_heartbeat, Get_process]"]
    by blast
qed

subsection \<open>Reconciliation\<close>

lemma monitor_tick_not_alive:
  assumes "is_process_alive s = (Inr False, s)"
  shows "monitor_tick s =
           (Inr (), s\<lparr>files := (\<lambda>p. if p \<in> undeletable s then files s p else None)\<rparr>)"
proof -
  from assms have "searchable s" by (rule is_process_alive_searchable)
  with assms show ?thesis by (simp add: monitor_tick_eq cleanup_files_eq)
qed

text \<open>
  Claim C4 says that a monitor tick on which \<^verbatim>\<open>is_process_alive\<close> is false removes both
  files and sends no signal. As stated it fails where the file system refuses a removal:
  \<^verbatim>\<open>_cleanup_files\<close> swallows the error of \<^verbatim>\<open>unlink\<close> and the file stays. Here the
  identity file names the missing process 999 and cannot be removed; after the tick it
  is still there.
\<close>

theorem reconcile_tick_locked_file:
  "is_process_alive locked = (Inr False, locked)
   \<and> fst (monitor_tick locked) = Inr ()
   \<and> files (snd (monitor_tick locked)) pid_file = Some ''999''"
proof -
  have dead: "is_process_alive locked = (Inr False, locked)"
    by (simp add: is_process_alive_def is_process_alive_try_def exists_path_def read_text_def
        os_kill_def locked_def stale_def fresh_def py_defs)
  moreover have "pid_file \<in> undeletable locked" and "files locked pid_file = Some ''999''"
    by (simp_all add: undeletable_def locked_def stale_def fresh_def)
  ultimately show ?thesis
    by (simp add: monitor_tick_not_alive)
qed

text \<open>
  Claim C4, amended. On a monitor tick on which \<^verbatim>\<open>is_process_alive\<close> is false, the
  tick does not raise, delivers no signal and leaves the process table alone, and
  afterwards every file is absent except one whose removal the file system refuses,
  which is as before. In particular both files are absent when neither removal fails.
\<close>

theorem reconcile_tick:
  assumes "is_process_alive s = (Inr False, s)"
  shows "fst (monitor_tick s) = Inr ()
         \<and> signals (snd (monitor_tick s)) = signals s
         \<and> procs (snd (monitor_tick s)) = procs s
         \<and> (\<forall>p. files (snd (monitor_tick s)) p = (if p \<in> undeletable s then files s p else None))"
  by (simp add: monitor_tick_not_alive [OF assms])

text \<open>The crash-reconciliation scenario: both files gone, no signal.\<close>

theorem reconcile_tick_witness:
  "is_process_alive stale = (Inr False, stale)
   \<and> fst (monitor_tick stale) = Inr ()
   \<and> signals (snd (monitor_tick stale)) = []
   \<and> files (snd (monitor_tick stale)) pid_file = None
   \<and> files (snd (monitor_tick stale)) last_active_file = None"
proof -
  have dead: "is_process_alive stale = (Inr False, stale)"
    by (simp add: is_process_alive_def is_process_alive_try_def exists_path_def read_text_def
        os_kill_def stale_def fresh_def py_defs)
  have "undeletable stale = {}" and "signals stale = []"
    by (simp_all add: undeletable_def stale_def fresh_def)
  with dead show ?thesis
    using reconcile_tick [OF dead] by simp
qed

subsection \<open>The heartbeat\<close>












subsection \<open>Liveness\<close>

text \<open>
  What holds of \<^verbatim>\<open>is_process_alive\<close> where the directory can be searched: it returns,
  changes nothing (\<open>is_process_alive_returns\<close>), and answers \<^verbatim>\<open>True\<close> exactly when the
  identity file can be read, its content parses as an integer and the probe of that
  number with signal 0 succeeds.
\<close>

lemma is_process_alive_iff:
  assumes "searchable s"
  shows "is_process_alive s = (Inr True, s) \<longleftrightarrow>
     (\<exists>c n. read_text pid_file s = Inr c \<and> py_int (strip c) = Inr n
            \<and> fst (os_kill n 0 s) = Inr ())"
proof (cases "files s pid_file")
  case None
  with assms show ?thesis
    by (simp add: is_process_alive_def exists_path_searchable read_text_def)
next
  case (Some c0)
  with assms have ex: "exists_path pid_file s = Inr True"
    by (simp add: exists_path_searchable)
  show ?thesis
  proof (cases "read_text pid_file s")
    case (Inl e)
    with ex show ?thesis
      by (simp add: is_process_alive_def is_process_alive_try_def)
  next
    case read: (Inr c)
    show ?thesis
    proof (cases "py_int (strip c)")
      case (Inl e)
      with ex read show ?thesis
        by (simp add: is_process_alive_def is_process_alive_try_def)
    next
      case (Inr n)
      obtain r where r: "os_kill n 0 s = (r, s)"
        using os_kill_probe by blast
      with ex read Inr show ?thesis
        by (cases r) (simp_all add: is_process_alive_def is_process_alive_try_def)
    qed
  qed
qed

text \<open>
  Claim C6. \<^verbatim>\<open>is_process_alive\<close> should never raise, and should answer \<^verbatim>\<open>True\<close> only
  when a process with the stored identifier exists. The code misses both in two places.
  The call \<^verbatim>\<open>self.pid_file.exists()\<close> stands before the \<^verbatim>\<open>try\<close>: where the skill
  directory cannot be searched it raises \<^verbatim>\<open>PermissionError\<close>, and so does
  \<^verbatim>\<open>is_process_alive\<close>. And the stored number is probed as it is: for the content
  \<^verbatim>\<open>0\<close> the probe \<^verbatim>\<open>os.kill(0, 0)\<close> addresses the caller's own process group and
  succeeds, so the answer is \<^verbatim>\<open>True\<close> although no process has the identifier 0.
\<close>

theorem is_process_alive_raises_and_misjudges:
  "files sealed pid_file = Some ''4242''
   \<and> is_process_alive sealed = (Inl PermissionError, sealed)
   \<and> files pid_zero pid_file = Some ''0''
   \<and> py_int (strip ''0'') = Inr 0
   \<and> procs pid_zero 0 = None
   \<and> is_process_alive pid_zero = (Inr True, pid_zero)"
proof -
  have "files sealed pid_file = Some ''4242''" and "\<not> searchable sealed"
    by (simp_all add: sealed_def idle_worker_def fresh_def)
  moreover have "files pid_zero pid_file = Some ''0''" and "procs pid_zero 0 = None"
    by (simp_all add: pid_zero_def fresh_def)
  moreover have "py_int (strip ''0'') = Inr 0"
    by (simp add: py_defs)
  moreover have "is_process_alive pid_zero = (Inr True, pid_zero)"
    by (simp add: is_process_alive_def is_process_alive_try_def exists_path_def read_text_def
        os_kill_def pid_zero_def fresh_def py_defs)
  ultimately show ?thesis
    by (simp add: is_process_alive_unsearchable)
qed

subsection \<open>The monitor and its ticks\<close>

lemma monitor_tick_frame:
  assumes "searchable s"
  shows "\<exists>s'. monitor_tick s = (Inr (), s') \<and> clock s' = clock s
        \<and> check_interval s' = check_interval s \<and> stop_event s' = stop_event s
        \<and> searchable s'"
  using assms by (simp add: monitor_tick_eq cleanup_files_eq)

text \<open>
  One pass of the loop of a running monitor (the directory can be searched, the interval
  is a length of time) while the event is not set: tick, then the whole sleep.
\<close>

lemma monitor_loop_step:
  assumes "searchable s" and "0 \<le> check_interval s" and "\<not> stop_event s"
  shows "\<exists>s'. monitor_loop (Suc n) stop_at s = monitor_loop n stop_at s'
              \<and> clock s' = clock s + nat (check_interval s)
              \<and> check_interval s' = check_interval s
              \<and> searchable s'
              \<and> (stop_event s' \<longleftrightarrow>
                   (case stop_at of None \<Rightarrow> False
                    | Some t \<Rightarrow> t \<le> clock s + nat (check_interval s)))"
proof -
  obtain s1 where tick: "monitor_tick s = (Inr (), s1)" and "clock s1 = clock s"
    and "check_interval s1 = check_interval s" and "stop_event s1 = stop_event s"
    and "searchable s1"
    using monitor_tick_frame [OF assms(1)] by blast
  with assms show ?thesis
    by (intro exI [of _ "snd (time_sleep (check_interval s1) stop_at s1)"])
       (simp add: time_sleep_def cong: option.case_cong)
qed

text \<open>What holds of the loop: no exception ends a running monitor.\<close>

lemma monitor_loop_runs:
  assumes "searchable s" and "0 \<le> check_interval s"
  shows "fst (monitor_loop n stop_at s) \<noteq> Some (Inl e)"
  using assms
proof (induction n arbitrary: s)
  case 0
  show ?case by simp
next
  case (Suc n)
  show ?case
  proof (cases "stop_event s")
    case True
    then show ?thesis by simp
  next
    case False
    from monitor_loop_step [OF Suc.prems False, of n stop_at]
    obtain s' where "monitor_loop (Suc n) stop_at s = monitor_loop n stop_at s'"
      and "check_interval s' = check_interval s" and "searchable s'"
      by blast
    with Suc.IH [of s'] Suc.prems show ?thesis by simp
  qed
qed

text \<open>
  Claim C9. No exception should ever leave a tick of \<^verbatim>\<open>_monitor_loop\<close> and end the
  monitor, whatever the state. The methods a tick calls wrap their reads, their parsing,
  their signals and their removals in handlers, but \<^verbatim>\<open>_monitor_loop\<close> has no handler
  of its own, and two calls are left outside every handler. The call of \<^verbatim>\<open>exists\<close>
  that opens \<^verbatim>\<open>is_process_alive\<close>, \<^verbatim>\<open>_check_timeout\<close> and \<^verbatim>\<open>_cleanup_files\<close>: where
  the skill directory cannot be searched, the first tick raises \<^verbatim>\<open>PermissionError\<close>
  and the thread is over. And \<^verbatim>\<open>time.sleep(self.check_interval)\<close> after the tick:
  with a configured interval of \<open>-1\<close> the first tick is fine and the sleep raises
  \<^verbatim>\<open>ValueError\<close>. In both cases the loop has ended with the exception, however long
  one lets it run.
\<close>

theorem monitor_thread_ended_by_exception:
  "\<not> stop_event sealed
   \<and> monitor_tick sealed = (Inl PermissionError, sealed)
   \<and> fst (monitor_loop 1 None sealed) = Some (Inl PermissionError)
   \<and> fst (monitor_loop 5 None sealed) = Some (Inl PermissionError)
   \<and> \<not> stop_event negative_interval
   \<and> fst (monitor_tick negative_interval) = Inr ()
   \<and> fst (monitor_loop 1 None negative_interval) = Some (Inl ValueError)
   \<and> fst (monitor_loop 5 None negative_interval) = Some (Inl ValueError)"
proof -
  have a: "\<not> stop_event sealed" and b: "\<not> searchable sealed"
    by (simp_all add: sealed_def idle_worker_def fresh_def)
  have c: "\<not> stop_event negative_interval" and d: "searchable negative_interval"
    and e: "check_interval negative_interval = -1"
    by (simp_all add: negative_interval_def fresh_def)
  have dead: "is_process_alive negative_interval = (Inr False, negative_interval)"
    by (simp add: is_process_alive_def exists_path_def negative_interval_def fresh_def)
  have "files negative_interval = Map.empty"
    by (simp add: negative_interval_def fresh_def)
  then have "(\<lambda>p. if p \<in> undeletable negative_interval then files negative_interval p else None)
               = files negative_interval"
    by (intro ext) simp
  then have tick: "monitor_tick negative_interval = (Inr (), negative_interval)"
    using d dead by (simp add: monitor_tick_eq cleanup_files_eq)
  have sl: "time_sleep (- 1) None negative_interval = (Inl ValueError, negative_interval)"
    by (simp add: time_sleep_def)
  have first: "monitor_loop (Suc n) None sealed = (Some (Inl PermissionError), sealed)" for n
    using a by (simp add: monitor_tick_unsearchable [OF b])
  have first': "monitor_loop (Suc n) None negative_interval
                  = (Some (Inl ValueError), negative_interval)" for n
    using c by (simp add: tick e sl)
  show ?thesis
    using a c first [of 0] first [of 4] first' [of 0] first' [of 4]
    by (simp add: monitor_tick_unsearchable [OF b] tick)
qed

subsection \<open>The handle and the files\<close>

lemma os_kill_frame:
  "files (snd (os_kill n sig s)) = files s
   \<and> undeletable (snd (os_kill n sig s)) = undeletable s
   \<and> searchable (snd (os_kill n sig s)) = searchable s
   \<and> process (snd (os_kill n sig s)) = process s
   \<and> stop_event (snd (os_kill n sig s)) = stop_event s"
  by (simp add: os_kill_def split: option.splits)

lemma terminate_process_try_frame:
  "files (snd (terminate_process_try s)) = files s
   \<and> undeletable (snd (terminate_process_try s)) = undeletable s
   \<and> searchable (snd (terminate_process_try s)) = searchable s
   \<and> process (snd (terminate_process_try s)) = process s"
  by (simp add: terminate_process_try_def os_kill_frame split: sum.splits)

lemma terminate_process_eq:
  "terminate_process s =
     (if \<not> searchable s then (Inl PermissionError, s)
      else cleanup_files (if files s pid_file \<noteq> None then snd (terminate_process_try s) else s))"
proof (cases "searchable s")
  case False
  then show ?thesis
    by (simp add: terminate_process_def and_then_def exists_path_unsearchable)
next
  case True
  obtain r s1 where "terminate_process_try s = (r, s1)" by (cases "terminate_process_try s")
  with True show ?thesis
    by (cases r)
       (simp_all add: terminate_process_def except_pass_def and_then_def exists_path_searchable)
qed

lemma cleanup_files_effect:
  "process (snd (cleanup_files s)) = process s
   \<and> (\<forall>p. files (snd (cleanup_files s)) p = (if p \<in> undeletable s then files s p else None))"
  by (simp add: cleanup_files_eq)

lemma terminate_process_effect:
  "process (snd (terminate_process s)) = process s
   \<and> (\<forall>p. files (snd (terminate_process s)) p = (if p \<in> undeletable s then files s p else None))"
proof (cases "searchable s")
  case False
  then show ?thesis
    by (simp add: terminate_process_eq undeletable_unsearchable)
next
  case True
  then show ?thesis
    unfolding terminate_process_eq
    using terminate_process_try_frame [of s] by (simp add: cleanup_files_effect)
qed

lemma popen_terminate_frame:
  "files (snd (popen_terminate h s)) = files s
   \<and> undeletable (snd (popen_terminate h s)) = undeletable s
   \<and> searchable (snd (popen_terminate h s)) = searchable s
   \<and> process (snd (popen_terminate h s)) = process s
   \<and> stop_event (snd (popen_terminate h s)) = stop_event s"
proof (cases "exited h")
  case True
  then show ?thesis by (simp add: popen_terminate_def)
next
  case False
  obtain r s1 where k: "os_kill (pid h) SIGTERM s = (r, s1)"
    by (cases "os_kill (pid h) SIGTERM s")
  with os_kill_frame [of "pid h" SIGTERM s] False show ?thesis
    by (cases r) (simp_all add: popen_terminate_def)
qed

lemma popen_wait_frame:
  "files (snd (popen_wait h s)) = files s
   \<and> undeletable (snd (popen_wait h s)) = undeletable s
   \<and> searchable (snd (popen_wait h s)) = searchable s
   \<and> stop_event (snd (popen_wait h s)) = stop_event s"
  by (simp add: popen_wait_def split: option.splits)

lemma popen_wait_exited:
  assumes "popen_wait h s = (Inr (), s')" and "process s = Some h"
  shows "\<exists>h'. process s' = Some h' \<and> pid h' = pid h \<and> exited h'"
  using assms by (auto simp: popen_wait_def split: if_splits option.splits)

text \<open>What holds after a \<^verbatim>\<open>stop\<close> that returned.\<close>

lemma stop_post:
  assumes "stop s = (Inr (), s')"
  shows "stop_event s'
         \<and> (\<forall>h. process s' = Some h \<longrightarrow> exited h)
         \<and> map_option pid (process s') = map_option pid (process s)
         \<and> undeletable s' = undeletable s
         \<and> searchable s'
         \<and> (\<forall>p. files s' p = (if p \<in> undeletable s then files s p else None))"
proof (cases "process s")
  case None
  with assms have c: "cleanup_files (s\<lparr>stop_event := True\<rparr>) = (Inr (), s')"
    by (simp add: stop_def and_then_def)
  then have "searchable s"
    by (cases "searchable s") (simp_all add: cleanup_files_eq)
  with c None show ?thesis
    by (auto simp: cleanup_files_eq)
next
  case (Some h)
  let ?s1 = "s\<lparr>stop_event := True\<rparr>"
  obtain r2 s2 where t: "popen_terminate h ?s1 = (r2, s2)"
    by (cases "popen_terminate h ?s1")
  obtain r3 s3 where w: "popen_wait h s2 = (r3, s3)"
    by (cases "popen_wait h s2")
  from assms Some t have r2: "r2 = Inr ()"
    by (cases r2) (simp_all add: stop_def and_then_def)
  from assms Some t w r2 have r3: "r3 = Inr ()"
    by (cases r3) (simp_all add: stop_def and_then_def)
  from assms Some t w r2 r3 have c: "cleanup_files s3 = (Inr (), s')"
    by (simp add: stop_def and_then_def)
  from popen_terminate_frame [of h ?s1] t Some
  have f2: "files s2 = files s" "undeletable s2 = undeletable s" "process s2 = Some h"
    "stop_event s2" "searchable s2 = searchable s"
    by simp_all
  from popen_wait_frame [of h s2] w f2
  have f3: "files s3 = files s" "undeletable s3 = undeletable s" "stop_event s3"
    "searchable s3 = searchable s"
    by simp_all
  from popen_wait_exited [of h s2 s3] w r3 f2
  obtain h' where h': "process s3 = Some h'" "pid h' = pid h" "exited h'"
    by blast
  from c have "searchable s3"
    by (cases "searchable s3") (simp_all add: cleanup_files_eq)
  with c f3 h' Some show ?thesis
    by (auto simp: cleanup_files_eq)
qed

lemma stop_settled:
  assumes "stop_event s" and "\<forall>h. process s = Some h \<longrightarrow> exited h"
  shows "stop s = cleanup_files s"
proof -
  from assms(1) have same: "s\<lparr>stop_event := True\<rparr> = s"
    by (cases s) simp
  show ?thesis
  proof (cases "process s")
    case None
    then show ?thesis
      unfolding stop_def Let_def same by (simp add: and_then_def)
  next
    case (Some h)
    with assms(2) have "exited h" by simp
    with Some show ?thesis
      unfolding stop_def Let_def same
      by (simp add: and_then_def popen_terminate_def popen_wait_def)
  qed
qed

text \<open>
  A \<^verbatim>\<open>stop\<close> that has returned leaves a state on which a second \<^verbatim>\<open>stop\<close> returns
  and changes nothing.
\<close>

lemma stop_again:
  assumes "stop s = (Inr (), s')"
  shows "stop s' = (Inr (), s')"
proof -
  note post = stop_post [OF assms]
  have "(\<lambda>p. if p \<in> undeletable s' then files s' p else None) = files s'"
    using post by (intro ext) simp
  then have "cleanup_files s' = (Inr (), s')"
    using post by (simp add: cleanup_files_eq)
  with post show ?thesis
    by (simp add: stop_settled)
qed

lemma lost_worker_dead: "is_process_alive lost_worker = (Inr False, lost_worker)"
  by (simp add: is_process_alive_def is_process_alive_try_def exists_path_def read_text_def
      os_kill_def lost_worker_def fresh_def py_defs)

lemma stop_idle_worker:
  "stop idle_worker =
     (Inr (), idle_worker\<lparr>stop_event := True, signals := [(4242, SIGTERM)], procs := Map.empty,
                 process := Some \<lparr>pid = 4242, exited = True\<rparr>,
                 files := (\<lambda>p. None)\<rparr>)"
  by (simp add: stop_def and_then_def popen_terminate_def popen_wait_def os_kill_def
      cleanup_files_eq undeletable_def SIGTERM_def idle_worker_def fresh_def)

text \<open>
  Claim C7 says that the in-memory handle and the identity file are always cleared
  together. They are not: no method ever resets \<^verbatim>\<open>self.process\<close>. When the worker has
  died, the reconciling tick removes the identity file and the manager still holds the
  handle it had; after \<^verbatim>\<open>stop\<close> the identity file is gone and the handle is still
  held, now of a process that was waited for.
\<close>

theorem files_cleared_handle_kept:
  "files lost_worker pid_file = Some ''4242''
   \<and> process lost_worker = Some \<lparr>pid = 4242, exited = True\<rparr>
   \<and> fst (monitor_tick lost_worker) = Inr ()
   \<and> files (snd (monitor_tick lost_worker)) pid_file = None
   \<and> process (snd (monitor_tick lost_worker)) = Some \<lparr>pid = 4242, exited = True\<rparr>
   \<and> fst (stop idle_worker) = Inr ()
   \<and> files (snd (stop idle_worker)) pid_file = None
   \<and> process (snd (stop idle_worker)) = Some \<lparr>pid = 4242, exited = True\<rparr>"
proof -
  have "files lost_worker pid_file = Some ''4242''"
    and "process lost_worker = Some \<lparr>pid = 4242, exited = True\<rparr>"
    and "undeletable lost_worker = {}"
    by (simp_all add: undeletable_def lost_worker_def fresh_def)
  then show ?thesis
    by (simp add: monitor_tick_not_alive [OF lost_worker_dead] stop_idle_worker)
qed

text \<open>
  Claim C7, amended. When the manager terminates or loses the worker, through
  \<^verbatim>\<open>_terminate_process\<close>, \<^verbatim>\<open>_cleanup_files\<close> or a \<^verbatim>\<open>stop\<close> that returns, only the
  files are cleared: each file whose removal the file system permits is absent
  afterwards, while \<^verbatim>\<open>self.process\<close> keeps the handle of the same process
  (\<^verbatim>\<open>_terminate_process\<close> and \<^verbatim>\<open>_cleanup_files\<close> do not touch it, \<^verbatim>\<open>stop\<close> only waits
  for it).
\<close>

theorem handle_kept_when_files_cleared:
  "process (snd (cleanup_files s)) = process s
   \<and> process (snd (terminate_process s)) = process s
   \<and> (\<forall>p. p \<notin> undeletable s \<longrightarrow>
          files (snd (cleanup_files s)) p = None \<and> files (snd (terminate_process s)) p = None)
   \<and> (\<forall>s'. stop s = (Inr (), s') \<longrightarrow>
          map_option pid (process s') = map_option pid (process s)
          \<and> (\<forall>p. p \<notin> undeletable s \<longrightarrow> files s' p = None))"
proof (intro conjI allI impI)
  fix s' assume st: "stop s = (Inr (), s')"
  from stop_post [OF st]
  show "map_option pid (process s') = map_option pid (process s)" by simp
  fix p assume "p \<notin> undeletable s"
  with stop_post [OF st] show "files s' p = None" by simp
qed (simp_all add: cleanup_files_effect terminate_process_effect)

text \<open>At the manager that lost its worker, and at the idle worker for \<^verbatim>\<open>stop\<close>.\<close>

theorem handle_kept_when_files_cleared_witness:
  "process lost_worker = Some \<lparr>pid = 4242, exited = True\<rparr>
   \<and> process (snd (cleanup_files lost_worker)) = Some \<lparr>pid = 4242, exited = True\<rparr>
   \<and> process (snd (terminate_process lost_worker)) = Some \<lparr>pid = 4242, exited = True\<rparr>
   \<and> pid_file \<notin> undeletable lost_worker
   \<and> files (snd (cleanup_files lost_worker)) pid_file = None
   \<and> files (snd (terminate_process lost_worker)) pid_file = None
   \<and> fst (stop idle_worker) = Inr ()
   \<and> pid_file \<notin> undeletable idle_worker
   \<and> map_option pid (process (snd (stop idle_worker))) = Some 4242
   \<and> files (snd (stop idle_worker)) pid_file = None"
proof -
  have a: "process lost_worker = Some \<lparr>pid = 4242, exited = True\<rparr>"
    and b: "pid_file \<notin> undeletable lost_worker"
    and c: "pid_file \<notin> undeletable idle_worker"
    and d: "map_option pid (process idle_worker) = Some 4242"
    by (simp_all add: undeletable_def lost_worker_def idle_worker_def fresh_def)
  have e: "stop idle_worker = (Inr (), snd (stop idle_worker))"
    by (simp add: stop_idle_worker)
  then have f: "fst (stop idle_worker) = Inr ()"
    by (simp add: stop_idle_worker)
  from handle_kept_when_files_cleared [of lost_worker] a b
  have 1: "process (snd (cleanup_files lost_worker)) = Some \<lparr>pid = 4242, exited = True\<rparr>"
    and 2: "process (snd (terminate_process lost_worker)) = Some \<lparr>pid = 4242, exited = True\<rparr>"
    and 3: "files (snd (cleanup_files lost_worker)) pid_file = None"
    and 4: "files (snd (terminate_process lost_worker)) pid_file = None"
    by simp_all
  from handle_kept_when_files_cleared [of idle_worker] c d e
  have 5: "map_option pid (process (snd (stop idle_worker))) = Some 4242"
    and 6: "files (snd (stop idle_worker)) pid_file = None"
    by auto
  from a b c f 1 2 3 4 5 6 show ?thesis by (intro conjI)
qed

subsection \<open>Stopping twice\<close>

text \<open>
  Claim C8. \<^verbatim>\<open>stop\<close> called twice should end where one call ends: no durable files,
  no live worker. \<^verbatim>\<open>stop\<close> sets the event, waits for the threads with
  \<^verbatim>\<open>join(timeout=5)\<close>, which goes on when the time is up, terminates the process, and
  clears the files last. But it waits for the process with \<^verbatim>\<open>wait(timeout=5)\<close>, which
  raises \<^verbatim>\<open>TimeoutExpired\<close> when the time is up, and nothing catches it: for a worker
  that does not exit within five seconds of \<^verbatim>\<open>SIGTERM\<close> the exception leaves \<^verbatim>\<open>stop\<close>
  before \<^verbatim>\<open>_cleanup_files\<close>. After one call, and after two, both files are there and
  the worker lives. (Where \<^verbatim>\<open>stop\<close> returns, a second call changes nothing:
  \<open>stop_again\<close>.)
\<close>

theorem stop_timeout_skips_cleanup:
  "fst (stop stubborn) = Inl TimeoutExpired
   \<and> files (snd (stop stubborn)) pid_file = Some ''4242''
   \<and> files (snd (stop stubborn)) last_active_file = Some ''4997.0''
   \<and> procs (snd (stop stubborn)) 4242 = Some (Proc True False)
   \<and> process (snd (stop stubborn)) = Some \<lparr>pid = 4242, exited = False\<rparr>
   \<and> fst (stop (snd (stop stubborn))) = Inl TimeoutExpired
   \<and> files (snd (stop (snd (stop stubborn)))) pid_file = Some ''4242''"
proof -
  have 1: "stop stubborn = (Inl TimeoutExpired,
             stubborn\<lparr>stop_event := True, signals := [(4242, SIGTERM)]\<rparr>)"
    by (simp add: stop_def and_then_def popen_terminate_def popen_wait_def os_kill_def
        SIGTERM_def stubborn_def idle_worker_def fresh_def)
  have 2: "stop (stubborn\<lparr>stop_event := True, signals := [(4242, SIGTERM)]\<rparr>) =
             (Inl TimeoutExpired,
              stubborn\<lparr>stop_event := True, signals := [(4242, SIGTERM), (4242, SIGTERM)]\<rparr>)"
    by (simp add: stop_def and_then_def popen_terminate_def popen_wait_def os_kill_def
        SIGTERM_def stubborn_def idle_worker_def fresh_def)
  show ?thesis
    unfolding 1 2 fst_conv snd_conv by (simp add: stubborn_def idle_worker_def fresh_def)
qed

subsection \<open>Stopping the monitor\<close>




end
